theory Spec2Isabelle
  imports Main "HOL-Library.Multiset"
begin

section \<open>Data model\<close>

text \<open>
  The offline synchronisation subsystem of the repository: \<^verbatim>\<open>lib/localDb/syncManager.ts\<close>
  (class \<^verbatim>\<open>SyncManager\<close>), the schema of \<^verbatim>\<open>lib/localDb/index.ts\<close> and the queue
  discipline of \<^verbatim>\<open>lib/localDb/baseRepository.ts\<close>.

  A thrown \<^verbatim>\<open>Error\<close> is represented by its \<^verbatim>\<open>message\<close>; a function that can throw returns
  \<open>error + 'a\<close> with \<open>Inl\<close> for the throw.
\<close>

type_synonym error = string

text \<open>
  One row of the tables \<^verbatim>\<open>levels\<close>, \<^verbatim>\<open>offices\<close> and \<^verbatim>\<open>students\<close>. Columns declared
  \<^verbatim>\<open>NOT NULL\<close> have plain types, nullable columns are options. The columns
  \<^verbatim>\<open>birth_date, phone, address, office_id, level_id\<close> exist only in \<^verbatim>\<open>students\<close> (where
  \<^verbatim>\<open>office_id\<close> and \<^verbatim>\<open>level_id\<close> are \<^verbatim>\<open>NOT NULL\<close>); they are \<open>None\<close> in the other two
  tables. \<open>local_id\<close> is the column \<^verbatim>\<open>id\<close>. \<^verbatim>\<open>is_synced\<close> is an integer that every statement
  of the code writes as 0 or 1 and that JavaScript reads as true when it is not 0.
\<close>

record row =
  local_id :: nat
  uuid :: string
  name :: string
  birth_date :: "string option"
  phone :: "string option"
  address :: "string option"
  office_id :: "int option"
  level_id :: "int option"
  supabase_id :: "int option"
  is_synced :: int
  operation_type :: "string option"
  created_at :: string
  updated_at :: string
  deleted_at :: "string option"

text \<open>A record of the remote table as \<^verbatim>\<open>select('*')\<close> returns it: every field may be null.\<close>

record remote_item =
  r_id :: "int option"
  r_uuid :: "string option"
  r_name :: "string option"
  r_birth_date :: "string option"
  r_phone :: "string option"
  r_address :: "string option"
  r_office_id :: "int option"
  r_level_id :: "int option"
  r_created_at :: "string option"
  r_updated_at :: "string option"
  r_deleted_at :: "string option"

text \<open>
  One row of \<^verbatim>\<open>sync_queue\<close>. \<open>change_id\<close> is the column \<^verbatim>\<open>id\<close>; the \<^verbatim>\<open>CHECK\<close> constraint
  restricts \<^verbatim>\<open>operation\<close> to three values.
\<close>

datatype operation = INSERT | UPDATE | DELETE

record change =
  change_id :: nat
  entity :: string
  entity_local_id :: "nat option"
  entity_uuid :: "string option"
  entity_supabase_id :: "int option"
  operation :: operation
  payload :: string
  timestamp :: int
  retry_count :: int
  last_error :: "string option"

text \<open>
  The local store. \<open>tables\<close> names the tables that exist: \<^verbatim>\<open>initDb\<close> creates them one
  after the other and stops at the first statement the store refuses, and a later statement
  on a table that does not exist throws. \<open>sqlite_sequence\<close> holds, for each table with an
  \<^verbatim>\<open>AUTOINCREMENT\<close> key, the largest key the store has handed out.
\<close>

record database =
  tables :: "string list"
  levels :: "row list"
  offices :: "row list"
  students :: "row list"
  sync_queue :: "change list"
  sqlite_sequence :: "string \<Rightarrow> nat"

record SyncResult =
  success :: bool
  synced :: nat
  failed :: nat
  errors :: "string list"

record SyncManager =
  isOnline :: bool
  syncInProgress :: bool

definition maxRetries :: int where
  "maxRetries = 3"

text \<open>
  What the code calls and the repository does not define: the JSON parser, the remote
  backend (a state \<open>'r\<close> that each call may change, every call answering with data or an
  error message), \<^verbatim>\<open>new Date(s).getTime()\<close> (\<open>None\<close> is \<^verbatim>\<open>NaN\<close>), and the order in which the
  local store returns the rows of a query with \<^verbatim>\<open>ORDER BY timestamp ASC\<close> (\<open>indexOrder\<close> below
  is the order of the store the program opens).
\<close>

record ('r, 'p) env =
  jsonParse :: "string \<Rightarrow> error + 'p"
  remoteInsert :: "'r \<Rightarrow> string \<Rightarrow> 'p \<Rightarrow> (error + int) \<times> 'r"
  remoteUpdate :: "'r \<Rightarrow> string \<Rightarrow> 'p \<Rightarrow> int \<Rightarrow> error option \<times> 'r"
  remoteSoftDelete :: "'r \<Rightarrow> string \<Rightarrow> int \<Rightarrow> error option \<times> 'r"
  remoteSelect :: "'r \<Rightarrow> string \<Rightarrow> error + remote_item list option"
  getTime :: "string option \<Rightarrow> int option"
  orderByTimestamp :: "change list \<Rightarrow> change list"

section \<open>JavaScript values\<close>

text \<open>Truthiness of a nullable string: \<^verbatim>\<open>null\<close> and \<^verbatim>\<open>''\<close> are falsy.\<close>

definition truthy :: "string option \<Rightarrow> bool" where
  "truthy s = (case s of None \<Rightarrow> False | Some v \<Rightarrow> v \<noteq> [])"

text \<open>\<^verbatim>\<open>a || b\<close> on nullable strings.\<close>

definition orElse :: "string option \<Rightarrow> string option \<Rightarrow> string option" where
  "orElse a b = (if truthy a then a else b)"

text \<open>\<^verbatim>\<open>a > b\<close> on the results of \<^verbatim>\<open>getTime()\<close>: false as soon as one side is \<^verbatim>\<open>NaN\<close>.\<close>

definition laterThan :: "int option \<Rightarrow> int option \<Rightarrow> bool" where
  "laterThan a b = (case a of None \<Rightarrow> False | Some x \<Rightarrow> (case b of None \<Rightarrow> False | Some y \<Rightarrow> y < x))"

text \<open>\<^verbatim>\<open>remoteItem.updated_at || remoteItem.created_at\<close> and the same on a local row.\<close>

definition remoteStamp :: "remote_item \<Rightarrow> string option" where
  "remoteStamp r = orElse (r_updated_at r) (r_created_at r)"

definition localStamp :: "row \<Rightarrow> string option" where
  "localStamp l = orElse (Some (updated_at l)) (Some (created_at l))"

section \<open>The local store\<close>

definition getTable :: "database \<Rightarrow> string \<Rightarrow> row list option" where
  "getTable db e =
     (if e \<notin> set (tables db) then None
      else if e = ''levels'' then Some (levels db)
      else if e = ''offices'' then Some (offices db)
      else if e = ''students'' then Some (students db)
      else None)"

definition setTable :: "database \<Rightarrow> string \<Rightarrow> row list \<Rightarrow> database" where
  "setTable db e t =
     (if e = ''levels'' then db\<lparr>levels := t\<rparr>
      else if e = ''offices'' then db\<lparr>offices := t\<rparr>
      else if e = ''students'' then db\<lparr>students := t\<rparr>
      else db)"

text \<open>\<^verbatim>\<open>WHERE deleted_at IS NULL OR deleted_at = ''\<close>\<close>

definition isActive :: "row \<Rightarrow> bool" where
  "isActive l = (case deleted_at l of None \<Rightarrow> True | Some d \<Rightarrow> d = [])"

text \<open>
  The constraints of the schema. Each table has \<^verbatim>\<open>id\<close> as primary key, \<^verbatim>\<open>uuid UNIQUE\<close>,
  \<^verbatim>\<open>supabase_id UNIQUE\<close> (nulls do not clash) and
  \<^verbatim>\<open>UNIQUE(name) WHERE deleted_at IS NULL\<close> (for students
  \<^verbatim>\<open>UNIQUE(name, office_id, level_id) WHERE deleted_at IS NULL\<close>); a student's \<^verbatim>\<open>office_id\<close>
  and \<^verbatim>\<open>level_id\<close> are \<^verbatim>\<open>NOT NULL\<close> and reference \<^verbatim>\<open>offices(supabase_id)\<close> and
  \<^verbatim>\<open>levels(supabase_id)\<close>, with \<^verbatim>\<open>PRAGMA foreign_keys = ON\<close>.
\<close>

definition uniqueKey :: "string \<Rightarrow> row \<Rightarrow> string \<times> int option \<times> int option" where
  "uniqueKey e l = (if e = ''students'' then (name l, office_id l, level_id l) else (name l, None, None))"

definition uniqueOk :: "string \<Rightarrow> row list \<Rightarrow> bool" where
  "uniqueOk e t =
     (distinct (map local_id t) \<and> distinct (map uuid t) \<and>
      distinct (filter (\<lambda>s. s \<noteq> None) (map supabase_id t)) \<and>
      distinct (map (uniqueKey e) (filter (\<lambda>l. deleted_at l = None) t)))"

definition notNullOk :: "string \<Rightarrow> row \<Rightarrow> bool" where
  "notNullOk e l = (if e = ''students'' then office_id l \<noteq> None \<and> level_id l \<noteq> None else True)"

definition references :: "int option \<Rightarrow> row list \<Rightarrow> bool" where
  "references k parent = (case k of None \<Rightarrow> True | Some v \<Rightarrow> list_ex (\<lambda>p. supabase_id p = Some v) parent)"

definition foreignKeysOk :: "database \<Rightarrow> bool" where
  "foreignKeysOk db =
     list_all (\<lambda>s. references (office_id s) (offices db) \<and> references (level_id s) (levels db)) (students db)"

text \<open>
  An \<^verbatim>\<open>UPDATE\<close> of the rows of table \<open>e\<close> that satisfy \<open>wh\<close>. \<open>f\<close> gives the new row, or
  \<open>None\<close> when a \<^verbatim>\<open>NOT NULL\<close> column would become null. The statement is atomic: it throws
  and changes nothing when a constraint fails. The uniqueness and foreign key constraints
  are evaluated on the tables as the statement leaves them, which is what the store decides
  on tables that satisfied them before.
\<close>

definition sqlUpdate :: "string \<Rightarrow> (row \<Rightarrow> bool) \<Rightarrow> (row \<Rightarrow> row option) \<Rightarrow> database \<Rightarrow> error + database" where
  "sqlUpdate e wh f db =
     (case getTable db e of
        None \<Rightarrow> Inl (''no such table: '' @ e)
      | Some t \<Rightarrow>
          if list_ex (\<lambda>l. wh l \<and> f l = None) t then Inl ''NOT NULL constraint failed''
          else
            let t' = map (\<lambda>l. if wh l then (case f l of None \<Rightarrow> l | Some l' \<Rightarrow> l') else l) t;
                db' = setTable db e t'
            in if \<not> uniqueOk e t' then Inl ''UNIQUE constraint failed''
               else if \<not> foreignKeysOk db' then Inl ''FOREIGN KEY constraint failed''
               else Inr db')"

text \<open>
  An \<^verbatim>\<open>UPDATE\<close> that assigns only \<^verbatim>\<open>deleted_at\<close>, \<^verbatim>\<open>is_synced\<close> and \<^verbatim>\<open>operation_type\<close>: no
  constraint of the schema can fail, the statement throws only when the table does not exist.
\<close>

definition sqlUpdateFlags :: "string \<Rightarrow> (row \<Rightarrow> bool) \<Rightarrow> (row \<Rightarrow> row) \<Rightarrow> database \<Rightarrow> error + database" where
  "sqlUpdateFlags e wh f db =
     (case getTable db e of
        None \<Rightarrow> Inl (''no such table: '' @ e)
      | Some t \<Rightarrow> Inr (setTable db e (map (\<lambda>l. if wh l then f l else l) t)))"

text \<open>
  The key that an \<^verbatim>\<open>AUTOINCREMENT\<close> table gives the next row: one more than the largest
  key in the table and in \<open>sqlite_sequence\<close>. The store takes the key before it checks the
  constraints of the row, so \<open>advance\<close> records it also for a row that \<^verbatim>\<open>OR IGNORE\<close> skips.
\<close>

definition nextId :: "database \<Rightarrow> string \<Rightarrow> row list \<Rightarrow> nat" where
  "nextId db e t = Suc (max (sqlite_sequence db e) (fold max (map local_id t) 0))"

definition advance :: "database \<Rightarrow> string \<Rightarrow> nat \<Rightarrow> database" where
  "advance db e n = db\<lparr>sqlite_sequence := (sqlite_sequence db)(e := n)\<rparr>"

text \<open>
  The answer of the store to
  \<^verbatim>\<open>SELECT * FROM sync_queue WHERE retry_count < ? ORDER BY timestamp ASC\<close> on the rows that
  pass the \<^verbatim>\<open>WHERE\<close>: the store reads them through \<^verbatim>\<open>idx_sync_queue_retry\<close>, that is in order of
  \<^verbatim>\<open>retry_count\<close> and then of \<^verbatim>\<open>id\<close>, and sorts them by \<^verbatim>\<open>timestamp\<close> keeping that order among
  equal timestamps. (\<open>sort_key\<close> is a stable insertion sort.)
\<close>

definition indexOrder :: "change list \<Rightarrow> change list" where
  "indexOrder xs = sort_key timestamp (sort_key retry_count (sort_key change_id xs))"

section \<open>Pull: \<^verbatim>\<open>fetchEntityChanges\<close>\<close>

text \<open>
  \<^verbatim>\<open>INSERT OR IGNORE\<close>: a row that violates \<^verbatim>\<open>NOT NULL\<close> or a uniqueness constraint is skipped
  silently; a foreign key violation is not covered by \<^verbatim>\<open>OR IGNORE\<close> and throws. \<open>remoteRow\<close>
  is the row of the statement with key \<open>n\<close>, or \<open>None\<close> when a \<^verbatim>\<open>NOT NULL\<close> column of every
  table (\<^verbatim>\<open>uuid\<close>, \<^verbatim>\<open>name\<close>, \<^verbatim>\<open>created_at\<close>, \<^verbatim>\<open>updated_at\<close>) would be null.
\<close>

definition remoteRow :: "string \<Rightarrow> remote_item \<Rightarrow> nat \<Rightarrow> row option" where
  "remoteRow e r n =
     (case r_uuid r of None \<Rightarrow> None | Some u \<Rightarrow>
     (case r_name r of None \<Rightarrow> None | Some nm \<Rightarrow>
     (case r_created_at r of None \<Rightarrow> None | Some c \<Rightarrow>
     (case remoteStamp r of None \<Rightarrow> None | Some m \<Rightarrow>
        Some \<lparr>local_id = n, uuid = u, name = nm,
              birth_date = (if e = ''students'' then r_birth_date r else None),
              phone = (if e = ''students'' then r_phone r else None),
              address = (if e = ''students'' then r_address r else None),
              office_id = (if e = ''students'' then r_office_id r else None),
              level_id = (if e = ''students'' then r_level_id r else None),
              supabase_id = r_id r, is_synced = 1, operation_type = None,
              created_at = c, updated_at = m, deleted_at = None\<rparr>))))"

definition insertRemoteItem :: "string \<Rightarrow> remote_item \<Rightarrow> database \<Rightarrow> error + database" where
  "insertRemoteItem e r db =
     (case getTable db e of
        None \<Rightarrow> Inl (''no such table: '' @ e)
      | Some t \<Rightarrow>
         (let n = nextId db e t in
          case remoteRow e r n of
            None \<Rightarrow> Inr (advance db e n)
          | Some new \<Rightarrow>
              if \<not> notNullOk e new then Inr (advance db e n)
              else if \<not> uniqueOk e (t @ [new]) then Inr (advance db e n)
              else if \<not> foreignKeysOk (setTable db e (t @ [new])) then Inl ''FOREIGN KEY constraint failed''
              else Inr (advance (setTable db e (t @ [new])) e n)))"

text \<open>The row that \<^verbatim>\<open>updateLocalFromRemote\<close> writes over a local row.\<close>

definition overwrite :: "string \<Rightarrow> remote_item \<Rightarrow> row \<Rightarrow> row option" where
  "overwrite e r l =
     (case r_name r of None \<Rightarrow> None | Some n \<Rightarrow>
     (case remoteStamp r of None \<Rightarrow> None | Some m \<Rightarrow>
        if e = ''students'' then
          (if r_office_id r = None \<or> r_level_id r = None then None
           else Some (l\<lparr>name := n, birth_date := r_birth_date r, phone := r_phone r,
                        address := r_address r, office_id := r_office_id r,
                        level_id := r_level_id r, updated_at := m, is_synced := 1\<rparr>))
        else Some (l\<lparr>name := n, updated_at := m, is_synced := 1\<rparr>)))"

definition updateLocalFromRemote :: "string \<Rightarrow> remote_item \<Rightarrow> database \<Rightarrow> error + database" where
  "updateLocalFromRemote e r db = sqlUpdate e (\<lambda>l. Some (uuid l) = r_uuid r) (overwrite e r) db"

text \<open>
  \<^verbatim>\<open>UPDATE ... SET deleted_at = ?, is_synced = 1, operation_type = NULL WHERE uuid = ?\<close>
\<close>

definition applyTombstone :: "string \<Rightarrow> remote_item \<Rightarrow> database \<Rightarrow> error + database" where
  "applyTombstone e r db =
     sqlUpdateFlags e (\<lambda>l. Some (uuid l) = r_uuid r)
       (\<lambda>l. l\<lparr>deleted_at := r_deleted_at r, is_synced := 1, operation_type := None\<rparr>) db"

text \<open>
  The body of the loop over \<^verbatim>\<open>remoteItems\<close>. \<open>localItems\<close> is the list read before the loop;
  the loop looks local rows up in it, not in the table as it stands.
\<close>

definition pullStep :: "(string option \<Rightarrow> int option) \<Rightarrow> string \<Rightarrow> row list \<Rightarrow> remote_item \<Rightarrow> database \<Rightarrow> error + database" where
  "pullStep T e localItems r db =
     (let localItem = find (\<lambda>l. Some (uuid l) = r_uuid r) localItems in
      if truthy (r_deleted_at r) then
        (case localItem of
           None \<Rightarrow> Inr db
         | Some l \<Rightarrow> if \<not> truthy (deleted_at l) then applyTombstone e r db else Inr db)
      else
        (case localItem of
           None \<Rightarrow> insertRemoteItem e r db
         | Some l \<Rightarrow>
             if laterThan (T (remoteStamp r)) (T (localStamp l)) \<and> is_synced l \<noteq> 0
             then updateLocalFromRemote e r db
             else Inr db))"

fun pullLoop :: "(string option \<Rightarrow> int option) \<Rightarrow> string \<Rightarrow> row list \<Rightarrow> remote_item list \<Rightarrow> database \<Rightarrow> error + database" where
  "pullLoop T e localItems [] db = Inr db"
| "pullLoop T e localItems (r # rs) db =
     (case pullStep T e localItems r db of
        Inl err \<Rightarrow> Inl err
      | Inr db' \<Rightarrow> pullLoop T e localItems rs db')"

text \<open>
  The part of \<^verbatim>\<open>fetchEntityChanges\<close> after the remote answer: read the active local rows,
  then run the loop in one transaction.
\<close>

definition pullEntity :: "(string option \<Rightarrow> int option) \<Rightarrow> string \<Rightarrow> remote_item list \<Rightarrow> database \<Rightarrow> error + database" where
  "pullEntity T e remoteItems db =
     (case getTable db e of
        None \<Rightarrow> Inl (''no such table: '' @ e)
      | Some t \<Rightarrow> pullLoop T e (filter isActive t) remoteItems db)"

definition fetchEntityChanges :: "('r, 'p) env \<Rightarrow> 'r \<Rightarrow> string \<Rightarrow> database \<Rightarrow> error + database" where
  "fetchEntityChanges w rs e db =
     (case remoteSelect w rs e of
        Inl err \<Rightarrow> Inl err
      | Inr remoteItems \<Rightarrow> pullEntity (getTime w) e (case remoteItems of None \<Rightarrow> [] | Some xs \<Rightarrow> xs) db)"

text \<open>
  \<^verbatim>\<open>fetchRemoteChanges\<close>: the three entities in a fixed order; a throw of one is logged and
  its transaction rolled back, so the database stays as it was before that entity.
\<close>

definition fetchOne :: "('r, 'p) env \<Rightarrow> 'r \<Rightarrow> string \<Rightarrow> database \<Rightarrow> database" where
  "fetchOne w rs e db = (case fetchEntityChanges w rs e db of Inl err \<Rightarrow> db | Inr db' \<Rightarrow> db')"

definition fetchRemoteChanges :: "('r, 'p) env \<Rightarrow> 'r \<Rightarrow> database \<Rightarrow> database" where
  "fetchRemoteChanges w rs db = fold (fetchOne w rs) [''levels'', ''offices'', ''students''] db"

section \<open>Push: \<^verbatim>\<open>syncChange\<close> and its handlers\<close>

text \<open>
  A handler returns the message of what it threw (if anything), the remote state and the
  database. \<^verbatim>\<open>UPDATE ... SET is_synced = 1, operation_type = NULL WHERE id = ?\<close>:
\<close>

definition markSynced :: "string \<Rightarrow> nat option \<Rightarrow> database \<Rightarrow> error + database" where
  "markSynced e lid db =
     sqlUpdateFlags e (\<lambda>l. Some (local_id l) = lid) (\<lambda>l. l\<lparr>is_synced := 1, operation_type := None\<rparr>) db"

definition handleInsert :: "('r, 'p) env \<Rightarrow> string \<Rightarrow> 'p \<Rightarrow> change \<Rightarrow> 'r \<times> database \<Rightarrow> error option \<times> 'r \<times> database" where
  "handleInsert w e p c st =
     (case st of (rs, db) \<Rightarrow>
     (case remoteInsert w rs e p of
        (Inl err, rs') \<Rightarrow> (Some err, rs', db)
      | (Inr data_id, rs') \<Rightarrow>
          (case sqlUpdate e (\<lambda>l. Some (uuid l) = entity_uuid c)
                  (\<lambda>l. Some (l\<lparr>supabase_id := Some data_id, is_synced := 1, operation_type := None\<rparr>)) db of
             Inl err \<Rightarrow> (Some err, rs', db)
           | Inr db' \<Rightarrow> (None, rs', db'))))"

text \<open>
  \<^verbatim>\<open>change.entity_supabase_id\<close> where it is truthy: \<^verbatim>\<open>null\<close> and \<^verbatim>\<open>0\<close> both take the
  branch \<^verbatim>\<open>!change.entity_supabase_id\<close>.
\<close>

definition knownRemoteId :: "change \<Rightarrow> int option" where
  "knownRemoteId c = (case entity_supabase_id c of None \<Rightarrow> None | Some v \<Rightarrow> if v = 0 then None else Some v)"

definition handleUpdate :: "('r, 'p) env \<Rightarrow> string \<Rightarrow> 'p \<Rightarrow> change \<Rightarrow> 'r \<times> database \<Rightarrow> error option \<times> 'r \<times> database" where
  "handleUpdate w e p c st =
     (case st of (rs, db) \<Rightarrow>
     (case knownRemoteId c of
        None \<Rightarrow> (Some ''Cannot update: missing Supabase ID'', rs, db)
      | Some sid \<Rightarrow>
         (case remoteUpdate w rs e p sid of
            (Some err, rs') \<Rightarrow> (Some err, rs', db)
          | (None, rs') \<Rightarrow>
              (case markSynced e (entity_local_id c) db of
                 Inl err \<Rightarrow> (Some err, rs', db)
               | Inr db' \<Rightarrow> (None, rs', db')))))"

text \<open>Without a remote id \<^verbatim>\<open>handleDelete\<close> only marks the local row; it makes no remote call.\<close>

definition handleDelete :: "('r, 'p) env \<Rightarrow> string \<Rightarrow> change \<Rightarrow> 'r \<times> database \<Rightarrow> error option \<times> 'r \<times> database" where
  "handleDelete w e c st =
     (case st of (rs, db) \<Rightarrow>
     (case knownRemoteId c of
        None \<Rightarrow>
         (case markSynced e (entity_local_id c) db of
            Inl err \<Rightarrow> (Some err, rs, db)
          | Inr db' \<Rightarrow> (None, rs, db'))
      | Some sid \<Rightarrow>
         (case remoteSoftDelete w rs e sid of
            (Some err, rs') \<Rightarrow> (Some err, rs', db)
          | (None, rs') \<Rightarrow>
              (case markSynced e (entity_local_id c) db of
                 Inl err \<Rightarrow> (Some err, rs', db)
               | Inr db' \<Rightarrow> (None, rs', db')))))"

definition syncChange :: "('r, 'p) env \<Rightarrow> change \<Rightarrow> 'r \<times> database \<Rightarrow> error option \<times> 'r \<times> database" where
  "syncChange w c st =
     (case jsonParse w (payload c) of
        Inl err \<Rightarrow> (Some err, st)
      | Inr p \<Rightarrow>
         (case operation c of
            INSERT \<Rightarrow> handleInsert w (entity c) p c st
          | UPDATE \<Rightarrow> handleUpdate w (entity c) p c st
          | DELETE \<Rightarrow> handleDelete w (entity c) c st))"

text \<open>
  \<^verbatim>\<open>UPDATE sync_queue SET retry_count = retry_count + 1, last_error = ? WHERE id = ?\<close> and
  \<^verbatim>\<open>DELETE FROM sync_queue WHERE id = ?\<close>
\<close>

definition handleSyncError :: "change \<Rightarrow> error \<Rightarrow> database \<Rightarrow> database" where
  "handleSyncError c err db =
     db\<lparr>sync_queue := map (\<lambda>q. if change_id q = change_id c
                                then q\<lparr>retry_count := retry_count q + 1, last_error := Some err\<rparr>
                                else q) (sync_queue db)\<rparr>"

definition clearSyncChange :: "nat \<Rightarrow> database \<Rightarrow> database" where
  "clearSyncChange changeId db = db\<lparr>sync_queue := filter (\<lambda>q. change_id q \<noteq> changeId) (sync_queue db)\<rparr>"

section \<open>The sync cycle: \<^verbatim>\<open>syncAll\<close>\<close>

text \<open>The body of the loop over \<^verbatim>\<open>changes\<close>: the \<^verbatim>\<open>try\<close> and its \<^verbatim>\<open>catch\<close>.\<close>

definition processChange :: "('r, 'p) env \<Rightarrow> change \<Rightarrow> SyncResult \<times> 'r \<times> database \<Rightarrow> SyncResult \<times> 'r \<times> database" where
  "processChange w c st =
     (case st of (res, rs, db) \<Rightarrow>
     (case syncChange w c (rs, db) of
        (None, rs', db') \<Rightarrow> (res\<lparr>synced := synced res + 1\<rparr>, rs', clearSyncChange (change_id c) db')
      | (Some err, rs', db') \<Rightarrow>
          (res\<lparr>failed := failed res + 1, errors := errors res @ [entity c @ '': '' @ err]\<rparr>,
           rs', handleSyncError c err db')))"

fun pushLoop :: "('r, 'p) env \<Rightarrow> change list \<Rightarrow> SyncResult \<times> 'r \<times> database \<Rightarrow> SyncResult \<times> 'r \<times> database" where
  "pushLoop w [] st = st"
| "pushLoop w (c # cs) st = pushLoop w cs (processChange w c st)"

text \<open>
  \<^verbatim>\<open>SELECT * FROM sync_queue WHERE retry_count < ? ORDER BY timestamp ASC\<close> with
  \<^verbatim>\<open>maxRetries\<close>: the list the loop runs over, read once before the loop.
\<close>

definition pendingChanges :: "('r, 'p) env \<Rightarrow> database \<Rightarrow> change list" where
  "pendingChanges w db = orderByTimestamp w (filter (\<lambda>q. retry_count q < maxRetries) (sync_queue db))"

text \<open>
  \<^verbatim>\<open>syncAll\<close>. The module's database handle is \<open>None\<close> before \<^verbatim>\<open>initDb\<close>; \<^verbatim>\<open>getDb\<close> then
  throws inside the outer \<^verbatim>\<open>try\<close>. With the handle set, the \<^verbatim>\<open>SELECT\<close> on \<^verbatim>\<open>sync_queue\<close>
  throws when that table does not exist. Both throws reach the outer \<^verbatim>\<open>catch\<close>: no entry
  is processed, nothing is pulled, and the result has \<open>success = False\<close> and one message.
  The statements of \<open>handleSyncError\<close> and \<open>clearSyncChange\<close> assign no constrained column;
  they can throw only when \<^verbatim>\<open>sync_queue\<close> does not exist, and then the \<^verbatim>\<open>SELECT\<close> has thrown
  before them. The \<^verbatim>\<open>finally\<close> clears \<open>syncInProgress\<close>, which was false when the cycle
  started.
\<close>

definition syncAll :: "('r, 'p) env \<Rightarrow> SyncManager \<Rightarrow> 'r \<times> database option \<Rightarrow> SyncResult \<times> SyncManager \<times> 'r \<times> database option" where
  "syncAll w m st =
     (case st of (rs, dbo) \<Rightarrow>
     (if syncInProgress m then
        (\<lparr>success = False, synced = 0, failed = 0, errors = [''Sync already in progress'']\<rparr>, m, rs, dbo)
      else if \<not> isOnline m then
        (\<lparr>success = False, synced = 0, failed = 0, errors = [''Device is offline'']\<rparr>, m, rs, dbo)
      else
        (case dbo of
           None \<Rightarrow>
             (\<lparr>success = False, synced = 0, failed = 0,
               errors = [''Database not initialized. Call initDb() first.'']\<rparr>,
              m\<lparr>syncInProgress := False\<rparr>, rs, None)
         | Some db \<Rightarrow>
             if ''sync_queue'' \<notin> set (tables db) then
               (\<lparr>success = False, synced = 0, failed = 0,
                 errors = [''no such table: sync_queue'']\<rparr>,
                m\<lparr>syncInProgress := False\<rparr>, rs, Some db)
             else
               (case pushLoop w (pendingChanges w db)
                       (\<lparr>success = True, synced = 0, failed = 0, errors = []\<rparr>, rs, db) of
                  (res, rs', db') \<Rightarrow>
                    (res\<lparr>success := (failed res = 0)\<rparr>, m\<lparr>syncInProgress := False\<rparr>, rs',
                     Some (fetchRemoteChanges w rs' db'))))))"

definition getPendingSyncCount :: "database \<Rightarrow> nat" where
  "getPendingSyncCount db = length (filter (\<lambda>q. retry_count q < maxRetries) (sync_queue db))"

definition clearFailedSyncs :: "database \<Rightarrow> database" where
  "clearFailedSyncs db = db\<lparr>sync_queue := filter (\<lambda>q. \<not> maxRetries \<le> retry_count q) (sync_queue db)\<rparr>"

section \<open>What the claims speak of\<close>

text \<open>
  An admissible answer of the store to \<^verbatim>\<open>ORDER BY timestamp ASC\<close>: the same rows, in
  non-decreasing order of \<^verbatim>\<open>timestamp\<close>. SQL leaves the order of rows with equal keys open.
\<close>

definition orderOk :: "(change list \<Rightarrow> change list) \<Rightarrow> bool" where
  "orderOk ord = (\<forall>xs. sorted (map timestamp (ord xs)) \<and> mset (ord xs) = mset xs)"

text \<open>The queue row of a change after one failed attempt.\<close>

definition retried :: "error \<Rightarrow> change \<Rightarrow> change" where
  "retried msg q = q\<lparr>retry_count := retry_count q + 1, last_error := Some msg\<rparr>"

text \<open>The row that the tombstone statement of \<open>pullStep\<close> writes over a local row.\<close>

definition tombstoned :: "remote_item \<Rightarrow> row \<Rightarrow> row" where
  "tombstoned r l = l\<lparr>deleted_at := r_deleted_at r, is_synced := 1, operation_type := None\<rparr>"

text \<open>
  A remote record can change the local rows with uuid \<open>u\<close>: it carries that uuid, the list
  read before the loop has a row \<open>l0\<close> with it, and the record is a tombstone, or \<open>l0\<close> is
  synced and the record's time is strictly later than the time of \<open>l0\<close>.
\<close>

definition touches :: "(string option \<Rightarrow> int option) \<Rightarrow> row list \<Rightarrow> remote_item \<Rightarrow> string \<Rightarrow> bool" where
  "touches T ls r u =
     (r_uuid r = Some u \<and>
      list_ex (\<lambda>l0. uuid l0 = u \<and>
         (truthy (r_deleted_at r) \<or>
          (is_synced l0 \<noteq> 0 \<and> laterThan (T (remoteStamp r)) (T (localStamp l0))))) ls)"

text \<open>
  Two rows agree in everything but \<open>deleted_at\<close>, \<open>is_synced\<close> and \<open>operation_type\<close>: the
  key, the uuid, the remote id, the business fields and both timestamps.
\<close>

definition sameContent :: "row \<Rightarrow> row \<Rightarrow> bool" where
  "sameContent a b =
     (local_id a = local_id b \<and> uuid a = uuid b \<and> supabase_id a = supabase_id b \<and>
      name a = name b \<and> birth_date a = birth_date b \<and> phone a = phone b \<and>
      address a = address b \<and> office_id a = office_id b \<and> level_id a = level_id b \<and>
      created_at a = created_at b \<and> updated_at a = updated_at b)"


section \<open>Example values\<close>

definition day1 :: string where "day1 = ''2024-01-01T00:00:00.000Z''"
definition day2 :: string where "day2 = ''2024-01-02T00:00:00.000Z''"
definition day3 :: string where "day3 = ''2024-01-03T00:00:00.000Z''"

text \<open>\<^verbatim>\<open>new Date(s).getTime()\<close> on the three dates above and on \<^verbatim>\<open>null\<close>; \<^verbatim>\<open>NaN\<close> elsewhere.\<close>

definition demoTime :: "string option \<Rightarrow> int option" where
  "demoTime s =
     (if s = None then Some 0
      else if s = Some day1 then Some 1704067200000
      else if s = Some day2 then Some 1704153600000
      else if s = Some day3 then Some 1704240000000
      else None)"

text \<open>
  A backend that accepts every call and numbers the inserted records, and one that is
  unreachable; both with the order of the store.
\<close>

definition demoEnv :: "(nat, string) env" where
  "demoEnv =
     \<lparr>jsonParse = (\<lambda>s. if s = [] then Inl ''Unexpected end of JSON input'' else Inr s),
      remoteInsert = (\<lambda>n e p. (Inr (int n + 100), Suc n)),
      remoteUpdate = (\<lambda>n e p i. (None, n)),
      remoteSoftDelete = (\<lambda>n e i. (None, n)),
      remoteSelect = (\<lambda>n e. Inr (Some [])),
      getTime = demoTime,
      orderByTimestamp = indexOrder\<rparr>"

definition downEnv :: "(nat, string) env" where
  "downEnv =
     demoEnv\<lparr>remoteInsert := (\<lambda>n e p. (Inl ''Network request failed'', n)),
             remoteUpdate := (\<lambda>n e p i. (Some ''Network request failed'', n)),
             remoteSoftDelete := (\<lambda>n e i. (Some ''Network request failed'', n)),
             remoteSelect := (\<lambda>n e. Inl ''Network request failed'')\<rparr>"

definition office1 :: row where
  "office1 =
     \<lparr>local_id = 1, uuid = ''u-1'', name = ''North'', birth_date = None, phone = None,
      address = None, office_id = None, level_id = None, supabase_id = Some 10, is_synced = 1,
      operation_type = None, created_at = day1, updated_at = day1, deleted_at = None\<rparr>"

definition office2 :: row where
  "office2 =
     \<lparr>local_id = 2, uuid = ''u-2'', name = ''South'', birth_date = None, phone = None,
      address = None, office_id = None, level_id = None, supabase_id = None, is_synced = 0,
      operation_type = Some ''INSERT'', created_at = day2, updated_at = day2, deleted_at = None\<rparr>"

text \<open>
  Remote records: office \<open>u-1\<close> renamed on day 3; the same office deleted on day 3;
  office \<open>u-2\<close> as another device may have pushed and deleted it; an office \<open>u-7\<close> that
  the remote table holds twice, as a push that was retried after its answer was lost leaves
  it, the second copy edited later.
\<close>

definition remoteRenamed :: remote_item where
  "remoteRenamed =
     \<lparr>r_id = Some 10, r_uuid = Some ''u-1'', r_name = Some ''North HQ'', r_birth_date = None,
      r_phone = None, r_address = None, r_office_id = None, r_level_id = None,
      r_created_at = Some day1, r_updated_at = Some day3, r_deleted_at = None\<rparr>"

definition remoteDeleted :: remote_item where
  "remoteDeleted = remoteRenamed\<lparr>r_name := Some ''North'', r_deleted_at := Some day3\<rparr>"

definition remoteDeleted2 :: remote_item where
  "remoteDeleted2 =
     \<lparr>r_id = Some 11, r_uuid = Some ''u-2'', r_name = Some ''South'', r_birth_date = None,
      r_phone = None, r_address = None, r_office_id = None, r_level_id = None,
      r_created_at = Some day2, r_updated_at = Some day3, r_deleted_at = Some day3\<rparr>"



text \<open>Office \<open>u-1\<close> after a local edit on day 2 that is still queued.\<close>

definition office1Edited :: row where
  "office1Edited =
     office1\<lparr>name := ''North Wing'', is_synced := 0, operation_type := Some ''UPDATE'',
             updated_at := day2\<rparr>"


definition change1 :: change where
  "change1 =
     \<lparr>change_id = 1, entity = ''offices'', entity_local_id = Some 2, entity_uuid = Some ''u-2'',
      entity_supabase_id = None, operation = INSERT, payload = ''{}'',
      timestamp = 1704153600, retry_count = 0, last_error = None\<rparr>"

definition change2 :: change where
  "change2 =
     \<lparr>change_id = 2, entity = ''offices'', entity_local_id = Some 2, entity_uuid = Some ''u-2'',
      entity_supabase_id = None, operation = UPDATE, payload = ''{}'',
      timestamp = 1704153600, retry_count = 0, last_error = None\<rparr>"

definition change3 :: change where
  "change3 =
     \<lparr>change_id = 3, entity = ''offices'', entity_local_id = Some 1, entity_uuid = Some ''u-1'',
      entity_supabase_id = Some 10, operation = UPDATE, payload = ''{}'',
      timestamp = 1704153000, retry_count = 3, last_error = Some ''Network request failed''\<rparr>"

definition demoDb :: database where
  "demoDb =
     \<lparr>tables = [''local_profiles'', ''levels'', ''offices'', ''students'', ''sync_queue''],
      levels = [], offices = [office1, office2], students = [],
      sync_queue = [change1, change2, change3],
      sqlite_sequence = (\<lambda>e. if e = ''offices'' then 2 else if e = ''sync_queue'' then 3 else 0)\<rparr>"


text \<open>
  The queue of \<open>demoDb\<close> after the insert of office \<open>u-2\<close> (entry 1) failed once, while its
  update (entry 2), queued in the same second, has not been tried.
\<close>

definition change1Failed :: change where
  "change1Failed = change1\<lparr>retry_count := 1, last_error := Some ''Network request failed''\<rparr>"

definition tiedDb :: database where
  "tiedDb = demoDb\<lparr>sync_queue := [change1Failed, change2]\<rparr>"

definition demoManager :: SyncManager where
  "demoManager = \<lparr>isOnline = True, syncInProgress = False\<rparr>"

section \<open>Single-flight\<close>

text \<open>
  C2. A call of \<open>syncAll\<close> made while \<open>syncInProgress\<close> is set returns at once the result
  \<open>success = False, synced = 0, failed = 0\<close>; the manager, the remote state and the
  database (its queue, its tables and every retry counter) are returned as they were.
\<close>

theorem syncAll_single_flight:
  assumes "syncInProgress m"
  shows "syncAll w m (rs, dbo) =
           (\<lparr>success = False, synced = 0, failed = 0, errors = [''Sync already in progress'']\<rparr>, m, rs, dbo)"
  using assms by (simp add: syncAll_def)

theorem syncAll_single_flight_witness:
  "syncInProgress (demoManager\<lparr>syncInProgress := True\<rparr>) \<and>
   syncAll downEnv (demoManager\<lparr>syncInProgress := True\<rparr>) (0, Some demoDb) =
     (\<lparr>success = False, synced = 0, failed = 0, errors = [''Sync already in progress'']\<rparr>,
      demoManager\<lparr>syncInProgress := True\<rparr>, 0, Some demoDb)"
  using syncAll_single_flight [of "demoManager\<lparr>syncInProgress := True\<rparr>" downEnv 0 "Some demoDb"]
  by simp


section \<open>The queue under push\<close>

lemmas demo_defs = demoEnv_def downEnv_def demoDb_def demoManager_def change1_def change2_def change3_def
  office1_def office2_def day1_def day2_def day3_def demoTime_def

lemmas sync_defs = syncAll_def pendingChanges_def processChange_def syncChange_def handleInsert_def
  handleUpdate_def handleDelete_def knownRemoteId_def markSynced_def sqlUpdate_def sqlUpdateFlags_def
  getTable_def setTable_def uniqueOk_def uniqueKey_def foreignKeysOk_def references_def
  handleSyncError_def clearSyncChange_def maxRetries_def fetchRemoteChanges_def fetchOne_def
  fetchEntityChanges_def pullEntity_def isActive_def indexOrder_def

lemma sync_queue_setTable [simp]: "sync_queue (setTable db e t) = sync_queue db"
  by (simp add: setTable_def)

lemma sync_queue_advance [simp]: "sync_queue (advance db e n) = sync_queue db"
  by (simp add: advance_def)

lemma getTable_advance [simp]: "getTable (advance db e n) e' = getTable db e'"
  by (simp add: advance_def getTable_def)

lemma tables_setTable [simp]: "tables (setTable db e t) = tables db"
  by (simp add: setTable_def)

lemma sqlUpdate_queue: "sqlUpdate e wh f db = Inr db' \<Longrightarrow> sync_queue db' = sync_queue db"
  by (auto simp: sqlUpdate_def Let_def split: option.splits if_splits)

lemma sqlUpdateFlags_queue: "sqlUpdateFlags e wh f db = Inr db' \<Longrightarrow> sync_queue db' = sync_queue db"
  by (auto simp: sqlUpdateFlags_def split: option.splits)

text \<open>No handler writes to the queue, and a handler that throws has not written at all.\<close>

lemma syncChange_queue: "syncChange w c (rs, db) = (r, rs', db') \<Longrightarrow> sync_queue db' = sync_queue db"
  by (auto simp: syncChange_def handleInsert_def handleUpdate_def handleDelete_def markSynced_def
      dest: sqlUpdate_queue sqlUpdateFlags_queue
      split: sum.splits operation.splits prod.splits option.splits)

lemma syncChange_failure_unchanged: "syncChange w c (rs, db) = (Some msg, rs', db') \<Longrightarrow> db' = db"
  by (auto simp: syncChange_def handleInsert_def handleUpdate_def handleDelete_def
      split: sum.splits operation.splits prod.splits option.splits)

lemma handleSyncError_tables [simp]:
  "levels (handleSyncError c msg db) = levels db"
  "offices (handleSyncError c msg db) = offices db"
  "students (handleSyncError c msg db) = students db"
  by (simp_all add: handleSyncError_def)

lemma handleSyncError_queue:
  "sync_queue (handleSyncError c msg db) =
     map (\<lambda>q. if change_id q = change_id c then retried msg q else q) (sync_queue db)"
  by (simp add: handleSyncError_def retried_def)

lemma processChange_failure:
  assumes "syncChange w c (rs, db) = (Some msg, rs', db')"
  shows "processChange w c (res, rs, db) =
           (res\<lparr>failed := failed res + 1, errors := errors res @ [entity c @ '': '' @ msg]\<rparr>,
            rs', handleSyncError c msg db)"
  using assms syncChange_failure_unchanged [OF assms] by (simp add: processChange_def)

lemma processChange_queue:
  assumes "processChange w c (res, rs, db) = (res', rs', db')"
  shows "sync_queue db' = filter (\<lambda>q. change_id q \<noteq> change_id c) (sync_queue db) \<or>
         (\<exists>msg. sync_queue db' = map (\<lambda>q. if change_id q = change_id c then retried msg q else q) (sync_queue db))"
proof -
  obtain r rs1 db1 where sc: "syncChange w c (rs, db) = (r, rs1, db1)"
    by (metis prod_cases3)
  have q: "sync_queue db1 = sync_queue db" using syncChange_queue [OF sc] .
  show ?thesis
  proof (cases r)
    case None
    with sc assms q show ?thesis
      by (auto simp: processChange_def clearSyncChange_def)
  next
    case (Some msg)
    with sc assms q show ?thesis
      by (auto simp: processChange_def handleSyncError_queue)
  qed
qed

lemma processChange_keeps_others:
  assumes "processChange w c (res, rs, db) = (res', rs', db')"
    and "q \<in> set (sync_queue db)" and "change_id q \<noteq> change_id c"
  shows "q \<in> set (sync_queue db')"
  using processChange_queue [OF assms(1)] assms(2,3) by (auto simp: image_iff)

text \<open>An entry whose id is not among the processed ones is in the queue afterwards, as it was.\<close>

lemma pushLoop_keeps_others:
  "pushLoop w cs (res, rs, db) = (res', rs', db') \<Longrightarrow> q \<in> set (sync_queue db) \<Longrightarrow>
   change_id q \<notin> change_id ` set cs \<Longrightarrow> q \<in> set (sync_queue db')"
proof (induction cs arbitrary: res rs db)
  case Nil
  then show ?case by simp
next
  case (Cons c cs)
  obtain res1 rs1 db1 where p: "processChange w c (res, rs, db) = (res1, rs1, db1)"
    by (metis prod_cases3)
  have "q \<in> set (sync_queue db1)"
    using processChange_keeps_others [OF p Cons.prems(2)] Cons.prems(3) by auto
  with Cons p show ?case by auto
qed

lemma processChange_counts:
  assumes "processChange w c (res, rs, db) = (res', rs', db')"
  shows "synced res' + failed res' = Suc (synced res + failed res) \<and>
         length (errors res') + failed res = length (errors res) + failed res'"
  using assms by (auto simp: processChange_def split: prod.splits option.splits)

text \<open>Every entry of the list is attempted: each adds one to \<open>synced\<close> or to \<open>failed\<close>.\<close>

lemma pushLoop_counts:
  "pushLoop w cs (res, rs, db) = (res', rs', db') \<Longrightarrow>
   synced res' + failed res' = synced res + failed res + length cs \<and>
   length (errors res') + failed res = length (errors res) + failed res'"
proof (induction cs arbitrary: res rs db)
  case Nil
  then show ?case by simp
next
  case (Cons c cs)
  obtain res1 rs1 db1 where p: "processChange w c (res, rs, db) = (res1, rs1, db1)"
    by (metis prod_cases3)
  from Cons.prems p have "pushLoop w cs (res1, rs1, db1) = (res', rs', db')" by simp
  from Cons.IH [OF this] processChange_counts [OF p] show ?case by simp
qed

lemma pushLoop_fold: "pushLoop w cs st = fold (processChange w) cs st"
  by (induction cs arbitrary: st) simp_all

subsection \<open>Pull never writes to the queue\<close>

lemma pullStep_queue: "pullStep T e ls r db = Inr db' \<Longrightarrow> sync_queue db' = sync_queue db"
  by (auto simp: pullStep_def Let_def insertRemoteItem_def updateLocalFromRemote_def applyTombstone_def
      dest: sqlUpdate_queue sqlUpdateFlags_queue split: option.splits if_splits)

lemma pullLoop_queue: "pullLoop T e ls rs db = Inr db' \<Longrightarrow> sync_queue db' = sync_queue db"
proof (induction rs arbitrary: db)
  case Nil
  then show ?case by simp
next
  case (Cons r rs)
  then show ?case by (auto split: sum.splits dest: pullStep_queue)
qed

lemma pullEntity_queue: "pullEntity T e rs db = Inr db' \<Longrightarrow> sync_queue db' = sync_queue db"
  by (auto simp: pullEntity_def split: option.splits dest: pullLoop_queue)

lemma fetchOne_queue: "sync_queue (fetchOne w rs e db) = sync_queue db"
  by (auto simp: fetchOne_def fetchEntityChanges_def split: sum.splits dest: pullEntity_queue)

lemma fetchRemoteChanges_queue: "sync_queue (fetchRemoteChanges w rs db) = sync_queue db"
  by (simp add: fetchRemoteChanges_def fetchOne_queue)

subsection \<open>Admissible orders\<close>

lemma orderOk_set: "orderOk ord \<Longrightarrow> set (ord xs) = set xs"
  by (metis orderOk_def set_mset_mset)

lemma orderOk_indexOrder: "orderOk indexOrder"
  by (simp add: orderOk_def indexOrder_def)

lemma length_filter_remove1:
  "\<not> P q \<Longrightarrow> length (filter P (remove1 q xs)) = length (filter P xs)"
  by (induction xs) auto

section \<open>Claims on push\<close>

text \<open>
  C3 at a failing input. In \<open>tiedDb\<close> the insert of office \<open>u-2\<close> (entry 1) and its update
  (entry 2) carry the same \<open>timestamp\<close>, which counts whole seconds, and the insert has failed
  once. The query orders by \<open>timestamp\<close> alone; the store reads the pending rows through the
  index on \<open>retry_count\<close>, so among equal timestamps the entry with the smaller \<open>retry_count\<close>
  comes first: the loop is handed the update before the insert that was queued before it,
  as the order of the messages of a cycle with the backend down shows.
\<close>

theorem tied_entries_out_of_creation_order:
  "map change_id (sync_queue tiedDb) = [1, 2] \<and>
   map timestamp (sync_queue tiedDb) = [1704153600, 1704153600] \<and>
   map entity (sync_queue tiedDb) = [''offices'', ''offices''] \<and>
   map retry_count (sync_queue tiedDb) = [1, 0] \<and>
   map change_id (pendingChanges demoEnv tiedDb) = [2, 1] \<and>
   map operation (pendingChanges demoEnv tiedDb) = [UPDATE, INSERT] \<and>
   errors (fst (syncAll downEnv demoManager (0, Some tiedDb))) =
     [''offices: Cannot update: missing Supabase ID'', ''offices: Network request failed'']"
  by (simp add: demo_defs tiedDb_def change1Failed_def sync_defs)

text \<open>
  C4. When the attempt on a queue entry throws (the remote call fails, the payload does not
  parse, the remote id is missing, or the local statement after the call fails), the tables
  are as before the attempt, so the record keeps its \<open>is_synced\<close> and \<open>operation_type\<close>; the
  result counts one more failure and gets the message; in the queue exactly the entry with
  that id has \<open>retry_count\<close> one higher and \<open>last_error\<close> set to the message, and no entry is
  removed; the loop goes on with the remaining entries and attempts each of them, and when
  none of them has the id of the failed entry, that entry is in the queue at the end of
  the loop with the one increment.
\<close>

theorem push_failure_isolation:
  assumes "syncChange w c (rs, db) = (Some msg, rs', db')"
  shows "db' = db \<and>
         processChange w c (res, rs, db) =
           (res\<lparr>failed := failed res + 1, errors := errors res @ [entity c @ '': '' @ msg]\<rparr>,
            rs', handleSyncError c msg db) \<and>
         sync_queue (handleSyncError c msg db) =
           map (\<lambda>q. if change_id q = change_id c then retried msg q else q) (sync_queue db) \<and>
         levels (handleSyncError c msg db) = levels db \<and>
         offices (handleSyncError c msg db) = offices db \<and>
         students (handleSyncError c msg db) = students db \<and>
         pushLoop w (c # cs) (res, rs, db) =
           pushLoop w cs
             (res\<lparr>failed := failed res + 1, errors := errors res @ [entity c @ '': '' @ msg]\<rparr>,
              rs', handleSyncError c msg db) \<and>
         (case pushLoop w (c # cs) (res, rs, db) of (res1, rs1, db1) \<Rightarrow>
            synced res1 + failed res1 = synced res + failed res + Suc (length cs) \<and>
            (change_id c \<notin> change_id ` set cs \<longrightarrow>
               (\<forall>q\<in>set (sync_queue db). change_id q = change_id c \<longrightarrow>
                   retried msg q \<in> set (sync_queue db1))))"
proof -
  let ?res = "res\<lparr>failed := failed res + 1, errors := errors res @ [entity c @ '': '' @ msg]\<rparr>"
  have p: "processChange w c (res, rs, db) = (?res, rs', handleSyncError c msg db)"
    using processChange_failure [OF assms] .
  obtain res1 rs1 db1 where l: "pushLoop w cs (?res, rs', handleSyncError c msg db) = (res1, rs1, db1)"
    by (metis prod_cases3)
  have n: "synced res1 + failed res1 = synced res + failed res + Suc (length cs)"
    using pushLoop_counts [OF l] by simp
  have k: "retried msg q \<in> set (sync_queue db1)"
    if "change_id c \<notin> change_id ` set cs" and "q \<in> set (sync_queue db)" and "change_id q = change_id c" for q
  proof -
    have "retried msg q \<in> set (sync_queue (handleSyncError c msg db))"
      using that(2,3) by (auto simp: handleSyncError_queue)
    moreover have "change_id (retried msg q) \<notin> change_id ` set cs"
      using that(1,3) by (simp add: retried_def)
    ultimately show ?thesis using pushLoop_keeps_others [OF l] by blast
  qed
  show ?thesis
    using syncChange_failure_unchanged [OF assms] p l n k
    by (simp add: handleSyncError_queue)
qed

theorem push_failure_isolation_witness:
  "syncChange downEnv change1 (0, demoDb) = (Some ''Network request failed'', 0, demoDb) \<and>
   pushLoop downEnv [change1, change2] (\<lparr>success = True, synced = 0, failed = 0, errors = []\<rparr>, 0, demoDb) =
     (\<lparr>success = True, synced = 0, failed = 2,
       errors = [''offices: Network request failed'', ''offices: Cannot update: missing Supabase ID'']\<rparr>,
      0,
      demoDb\<lparr>sync_queue :=
        [change1\<lparr>retry_count := 1, last_error := Some ''Network request failed''\<rparr>,
         change2\<lparr>retry_count := 1, last_error := Some ''Cannot update: missing Supabase ID''\<rparr>,
         change3]\<rparr>)"
proof -
  have sc: "syncChange downEnv change1 (0, demoDb) = (Some ''Network request failed'', 0, demoDb)"
    by (simp add: demo_defs sync_defs)
  from push_failure_isolation [OF sc, of "\<lparr>success = True, synced = 0, failed = 0, errors = []\<rparr>" "[change2]"]
  show ?thesis
    by (simp add: demo_defs sync_defs retried_def)
qed

text \<open>
  C5. In a queue with distinct ids, an entry with \<open>retry_count \<ge> maxRetries\<close> is not among
  the entries \<open>syncAll\<close> processes, does not count in \<open>getPendingSyncCount\<close>, and is still in
  the queue, unchanged, after any call of \<open>syncAll\<close>; \<open>clearFailedSyncs\<close> keeps exactly the
  entries with \<open>retry_count < maxRetries\<close>, in their order, and touches no table.
\<close>

theorem dead_letter_entries:
  assumes "distinct (map change_id (sync_queue db))" and "orderOk (orderByTimestamp w)"
    and "q \<in> set (sync_queue db)" and "maxRetries \<le> retry_count q"
  shows "q \<notin> set (pendingChanges w db) \<and>
         getPendingSyncCount db = getPendingSyncCount (db\<lparr>sync_queue := remove1 q (sync_queue db)\<rparr>) \<and>
         (case syncAll w m (rs, Some db) of (res, m', rs', dbo) \<Rightarrow>
            (case dbo of None \<Rightarrow> False | Some db' \<Rightarrow> q \<in> set (sync_queue db'))) \<and>
         sync_queue (clearFailedSyncs db) = filter (\<lambda>x. retry_count x < maxRetries) (sync_queue db) \<and>
         q \<notin> set (sync_queue (clearFailedSyncs db)) \<and>
         levels (clearFailedSyncs db) = levels db \<and>
         offices (clearFailedSyncs db) = offices db \<and>
         students (clearFailedSyncs db) = students db"
proof -
  have pend: "set (pendingChanges w db) = {x \<in> set (sync_queue db). retry_count x < maxRetries}"
    using orderOk_set [OF assms(2)] by (simp add: pendingChanges_def)
  have notin: "q \<notin> set (pendingChanges w db)"
    using pend assms(4) by simp
  have ids: "change_id q \<notin> change_id ` set (pendingChanges w db)"
  proof
    assume "change_id q \<in> change_id ` set (pendingChanges w db)"
    then obtain x where x: "x \<in> set (pendingChanges w db)" "change_id x = change_id q" by auto
    with pend have "x \<in> set (sync_queue db)" by simp
    with assms(1,3) x(2) have "x = q" by (meson distinct_map inj_onD)
    with x(1) notin show False by simp
  qed
  have count: "getPendingSyncCount db = getPendingSyncCount (db\<lparr>sync_queue := remove1 q (sync_queue db)\<rparr>)"
    using assms(4) by (simp add: getPendingSyncCount_def length_filter_remove1)
  have kept: "case syncAll w m (rs, Some db) of (res, m', rs', dbo) \<Rightarrow>
            (case dbo of None \<Rightarrow> False | Some db' \<Rightarrow> q \<in> set (sync_queue db'))"
  proof -
    obtain res rs' db' where p: "pushLoop w (pendingChanges w db)
        (\<lparr>success = True, synced = 0, failed = 0, errors = []\<rparr>, rs, db) = (res, rs', db')"
      by (metis prod_cases3)
    from pushLoop_keeps_others [OF p assms(3) ids] have "q \<in> set (sync_queue db')" .
    with p assms(3) show ?thesis
      by (simp add: syncAll_def fetchRemoteChanges_queue)
  qed
  have clear: "sync_queue (clearFailedSyncs db) = filter (\<lambda>x. retry_count x < maxRetries) (sync_queue db)"
    by (simp add: clearFailedSyncs_def not_le)
  show ?thesis
    using notin count kept clear assms(4) by (simp add: clearFailedSyncs_def)
qed

theorem dead_letter_entries_witness:
  "distinct (map change_id (sync_queue demoDb)) \<and> orderOk (orderByTimestamp downEnv) \<and>
   change3 \<in> set (sync_queue demoDb) \<and> maxRetries \<le> retry_count change3 \<and>
   pendingChanges downEnv demoDb = [change1, change2] \<and>
   getPendingSyncCount demoDb = 2 \<and>
   (case syncAll downEnv demoManager (0, Some demoDb) of (res, m', rs', dbo) \<Rightarrow>
      (case dbo of None \<Rightarrow> False | Some db' \<Rightarrow> change3 \<in> set (sync_queue db'))) \<and>
   sync_queue (clearFailedSyncs demoDb) = [change1, change2]"
proof -
  have ok: "orderOk (orderByTimestamp downEnv)"
    using orderOk_indexOrder by (simp add: downEnv_def demoEnv_def)
  have d: "distinct (map change_id (sync_queue demoDb))"
    by (simp add: demo_defs)
  have q: "change3 \<in> set (sync_queue demoDb)"
    by (simp add: demoDb_def)
  have r: "maxRetries \<le> retry_count change3"
    by (simp add: maxRetries_def change3_def)
  have p: "pendingChanges downEnv demoDb = [change1, change2]"
    by (simp add: demo_defs pendingChanges_def maxRetries_def indexOrder_def)
  have n: "getPendingSyncCount demoDb = 2"
    by (simp add: demo_defs getPendingSyncCount_def maxRetries_def)
  have c: "sync_queue (clearFailedSyncs demoDb) = [change1, change2]"
    by (simp add: demo_defs clearFailedSyncs_def maxRetries_def)
  from dead_letter_entries [OF d ok q r, of demoManager 0] d ok q r p n c show ?thesis
    by simp
qed




text \<open>
  C7. An \<open>UPDATE\<close> entry without \<open>entity_supabase_id\<close> fails before any remote call: the
  outcome is a message fixed by the payload alone, the remote state and the tables are
  returned as they were, the result counts one more failure, and the entry stays in the
  queue with \<open>retry_count\<close> one higher.
\<close>

theorem update_without_remote_id:
  assumes "operation c = UPDATE" and "entity_supabase_id c = None"
    and "msg = (case jsonParse w (payload c) of Inl err \<Rightarrow> err
                | Inr p \<Rightarrow> ''Cannot update: missing Supabase ID'')"
  shows "syncChange w c (rs, db) = (Some msg, rs, db) \<and>
         processChange w c (res, rs, db) =
           (res\<lparr>failed := failed res + 1, errors := errors res @ [entity c @ '': '' @ msg]\<rparr>,
            rs, handleSyncError c msg db) \<and>
         sync_queue (handleSyncError c msg db) =
           map (\<lambda>q. if change_id q = change_id c then retried msg q else q) (sync_queue db) \<and>
         levels (handleSyncError c msg db) = levels db \<and>
         offices (handleSyncError c msg db) = offices db \<and>
         students (handleSyncError c msg db) = students db"
proof -
  have sc: "syncChange w c (rs, db) = (Some msg, rs, db)"
    using assms by (simp add: syncChange_def handleUpdate_def knownRemoteId_def split: sum.splits)
  show ?thesis
    using sc processChange_failure [OF sc] by (simp add: handleSyncError_queue)
qed

theorem update_without_remote_id_witness:
  "operation change2 = UPDATE \<and> entity_supabase_id change2 = None \<and>
   syncChange demoEnv change2 (0, demoDb) = (Some ''Cannot update: missing Supabase ID'', 0, demoDb) \<and>
   sync_queue (handleSyncError change2 ''Cannot update: missing Supabase ID'' demoDb) =
     [change1, change2\<lparr>retry_count := 1, last_error := Some ''Cannot update: missing Supabase ID''\<rparr>, change3] \<and>
   offices (handleSyncError change2 ''Cannot update: missing Supabase ID'' demoDb) = [office1, office2]"
  using update_without_remote_id [of change2 "''Cannot update: missing Supabase ID''" demoEnv 0 demoDb
      "\<lparr>success = True, synced = 0, failed = 0, errors = []\<rparr>"]
  by (simp add: change2_def change1_def change3_def demoEnv_def demoDb_def retried_def)


section \<open>Tables under pull\<close>

lemma getTable_setTable: "getTable db e = Some t \<Longrightarrow> getTable (setTable db e t') e = Some t'"
  by (auto simp: getTable_def setTable_def split: if_splits)

lemma getTable_setTable_other: "e' \<noteq> e \<Longrightarrow> getTable (setTable db e t') e' = getTable db e'"
  by (auto simp: getTable_def setTable_def)

lemma sqlUpdate_Inr:
  assumes "sqlUpdate e wh f db = Inr db'" and "getTable db e = Some t"
  shows "db' = setTable db e (map (\<lambda>l. if wh l then (case f l of None \<Rightarrow> l | Some l' \<Rightarrow> l') else l) t)"
    and "\<forall>l\<in>set t. wh l \<longrightarrow> f l \<noteq> None"
  using assms by (auto simp: sqlUpdate_def Let_def list_ex_iff split: if_splits)

lemma sqlUpdateFlags_Inr:
  assumes "sqlUpdateFlags e wh f db = Inr db'" and "getTable db e = Some t"
  shows "db' = setTable db e (map (\<lambda>l. if wh l then f l else l) t)"
  using assms by (auto simp: sqlUpdateFlags_def)


lemma insertRemoteItem_Inr:
  assumes "insertRemoteItem e r db = Inr db'" and "getTable db e = Some t"
  shows "getTable db' e = Some t \<or>
         (\<exists>new. getTable db' e = Some (t @ [new]) \<and> remoteRow e r (nextId db e t) = Some new \<and>
                uniqueOk e (t @ [new]))"
  using assms getTable_setTable [OF assms(2)]
  by (auto simp: insertRemoteItem_def Let_def split: option.splits if_splits)


section \<open>Claims on pull\<close>

text \<open>
  C10. When \<open>updateLocalFromRemote\<close> goes through, every row of the table keeps its
  \<open>local_id\<close>, \<open>uuid\<close>, \<open>supabase_id\<close>, \<open>created_at\<close>, \<open>deleted_at\<close> and \<open>operation_type\<close>;
  outside \<^verbatim>\<open>students\<close> the student columns stay as they are too; rows with another uuid
  are not changed at all, nor are the other tables or the queue. What can change is the
  name, for students the five student columns, \<open>updated_at\<close> and \<open>is_synced\<close>. When the
  statement throws, nothing is written.
\<close>

theorem updateLocalFromRemote_frame:
  assumes "updateLocalFromRemote e r db = Inr db'" and "getTable db e = Some t"
  shows "case getTable db' e of None \<Rightarrow> False | Some t' \<Rightarrow>
           map local_id t' = map local_id t \<and> map uuid t' = map uuid t \<and>
           map supabase_id t' = map supabase_id t \<and> map created_at t' = map created_at t \<and>
           map deleted_at t' = map deleted_at t \<and> map operation_type t' = map operation_type t \<and>
           (e \<noteq> ''students'' \<longrightarrow>
              map birth_date t' = map birth_date t \<and> map phone t' = map phone t \<and>
              map address t' = map address t \<and> map office_id t' = map office_id t \<and>
              map level_id t' = map level_id t) \<and>
           filter (\<lambda>l. Some (uuid l) \<noteq> r_uuid r) t' = filter (\<lambda>l. Some (uuid l) \<noteq> r_uuid r) t \<and>
           (\<forall>e'. e' \<noteq> e \<longrightarrow> getTable db' e' = getTable db e') \<and>
           sync_queue db' = sync_queue db"
proof -
  let ?g = "\<lambda>l. if Some (uuid l) = r_uuid r then (case overwrite e r l of None \<Rightarrow> l | Some l' \<Rightarrow> l') else l"
  have db': "db' = setTable db e (map ?g t)"
    using sqlUpdate_Inr(1) [OF assms [unfolded updateLocalFromRemote_def]] .
  have t': "getTable db' e = Some (map ?g t)"
    using db' getTable_setTable [OF assms(2)] by simp
  have keep: "local_id (?g l) = local_id l \<and> uuid (?g l) = uuid l \<and> supabase_id (?g l) = supabase_id l \<and>
      created_at (?g l) = created_at l \<and> deleted_at (?g l) = deleted_at l \<and>
      operation_type (?g l) = operation_type l" for l
    by (auto simp: overwrite_def split: option.splits)
  have plain: "birth_date (?g l) = birth_date l \<and> phone (?g l) = phone l \<and> address (?g l) = address l \<and>
      office_id (?g l) = office_id l \<and> level_id (?g l) = level_id l" if "e \<noteq> ''students''" for l
    using that by (auto simp: overwrite_def split: option.splits)
  have "filter (\<lambda>l. Some (uuid l) \<noteq> r_uuid r) (map ?g t) = filter (\<lambda>l. Some (uuid l) \<noteq> r_uuid r) t"
    by (induction t) (auto simp: keep)
  then show ?thesis
    using t' db' by (simp add: keep plain getTable_setTable_other comp_def)
qed


lemma find_uuid_Some:
  "find (\<lambda>l. Some (uuid l) = r_uuid r) ls = Some l0 \<Longrightarrow> l0 \<in> set ls \<and> r_uuid r = Some (uuid l0)"
  by (auto simp: find_Some_iff)

lemma pullStep_rows:
  assumes "pullStep T e ls r db = Inr db'" and "getTable db e = Some t"
  shows "\<exists>t'. getTable db' e = Some t' \<and> length t \<le> length t' \<and>
           (\<forall>i<length t. t' ! i = t ! i \<or>
              (touches T ls r (uuid (t ! i)) \<and>
               (if truthy (r_deleted_at r) then t' ! i = tombstoned r (t ! i)
                else overwrite e r (t ! i) = Some (t' ! i))))"
proof (cases "find (\<lambda>l. Some (uuid l) = r_uuid r) ls")
  case None
  show ?thesis
  proof (cases "truthy (r_deleted_at r)")
    case True
    with None assms show ?thesis by (simp add: pullStep_def)
  next
    case False
    with None assms have "insertRemoteItem e r db = Inr db'" by (simp add: pullStep_def)
    from insertRemoteItem_Inr [OF this assms(2)] show ?thesis
      by (auto simp: nth_append)
  qed
next
  case (Some l0)
  note l0 = find_uuid_Some [OF Some]
  show ?thesis
  proof (cases "truthy (r_deleted_at r)")
    case True
    show ?thesis
    proof (cases "truthy (deleted_at l0)")
      case True
      with \<open>truthy (r_deleted_at r)\<close> Some assms show ?thesis by (simp add: pullStep_def)
    next
      case False
      with True Some assms have "applyTombstone e r db = Inr db'" by (simp add: pullStep_def)
      from sqlUpdateFlags_Inr [OF this [unfolded applyTombstone_def] assms(2)]
      have "getTable db' e = Some (map (\<lambda>l. if Some (uuid l) = r_uuid r then tombstoned r l else l) t)"
        using getTable_setTable [OF assms(2)] by (simp add: tombstoned_def)
      then show ?thesis
        using True l0 by (auto simp: touches_def list_ex_iff)
    qed
  next
    case False
    show ?thesis
    proof (cases "laterThan (T (remoteStamp r)) (T (localStamp l0)) \<and> is_synced l0 \<noteq> 0")
      case True
      with False Some assms have u: "updateLocalFromRemote e r db = Inr db'" by (simp add: pullStep_def)
      note upd = sqlUpdate_Inr [OF u [unfolded updateLocalFromRemote_def] assms(2)]
      have t': "getTable db' e = Some (map (\<lambda>l. if Some (uuid l) = r_uuid r
            then (case overwrite e r l of None \<Rightarrow> l | Some l' \<Rightarrow> l') else l) t)"
        using upd(1) getTable_setTable [OF assms(2)] by simp
      show ?thesis
        using t' upd(2) True False l0 by (auto simp: touches_def list_ex_iff split: option.splits)
    next
      case nope: False
      with False Some assms show ?thesis by (auto simp: pullStep_def)
    qed
  qed
qed

lemma overwrite_uuid: "overwrite e r l = Some l' \<Longrightarrow> uuid l' = uuid l"
  by (auto simp: overwrite_def split: option.splits if_splits)

lemma pullStep_uuid:
  assumes "pullStep T e ls r db = Inr db'" and "getTable db e = Some t"
  shows "\<exists>t'. getTable db' e = Some t' \<and> length t \<le> length t' \<and> (\<forall>i<length t. uuid (t' ! i) = uuid (t ! i))"
proof -
  from pullStep_rows [OF assms] obtain t' where t': "getTable db' e = Some t'" "length t \<le> length t'"
    and rows: "\<forall>i<length t. t' ! i = t ! i \<or>
              (touches T ls r (uuid (t ! i)) \<and>
               (if truthy (r_deleted_at r) then t' ! i = tombstoned r (t ! i)
                else overwrite e r (t ! i) = Some (t' ! i)))" by blast
  have "uuid (t' ! i) = uuid (t ! i)" if "i < length t" for i
    using rows that by (auto simp: tombstoned_def dest: overwrite_uuid split: if_splits)
  with t' show ?thesis by blast
qed

text \<open>A row changes only if some remote record touches its uuid.\<close>

lemma pullLoop_rows:
  "pullLoop T e ls rs db = Inr db' \<Longrightarrow> getTable db e = Some t \<Longrightarrow>
   \<exists>t'. getTable db' e = Some t' \<and> length t \<le> length t' \<and>
        (\<forall>i<length t. uuid (t' ! i) = uuid (t ! i) \<and>
            (t' ! i = t ! i \<or> (\<exists>r\<in>set rs. touches T ls r (uuid (t ! i)))))"
proof (induction rs arbitrary: db t)
  case Nil
  then show ?case by simp
next
  case (Cons r rs)
  from Cons.prems(1) obtain db1 where s: "pullStep T e ls r db = Inr db1"
    and l: "pullLoop T e ls rs db1 = Inr db'"
    by (auto split: sum.splits)
  from pullStep_rows [OF s Cons.prems(2)] pullStep_uuid [OF s Cons.prems(2)]
  obtain t1 where t1: "getTable db1 e = Some t1" "length t \<le> length t1"
    and u1: "\<forall>i<length t. uuid (t1 ! i) = uuid (t ! i)"
    and r1: "\<forall>i<length t. t1 ! i = t ! i \<or> touches T ls r (uuid (t ! i))"
    by fastforce
  from Cons.IH [OF l t1(1)] obtain t' where t': "getTable db' e = Some t'" "length t1 \<le> length t'"
    and r': "\<forall>i<length t1. uuid (t' ! i) = uuid (t1 ! i) \<and>
            (t' ! i = t1 ! i \<or> (\<exists>r\<in>set rs. touches T ls r (uuid (t1 ! i))))"
    by blast
  have "uuid (t' ! i) = uuid (t ! i) \<and>
            (t' ! i = t ! i \<or> (\<exists>r\<in>set (r # rs). touches T ls r (uuid (t ! i))))" if "i < length t" for i
  proof -
    from that t1(2) have i1: "i < length t1" by simp
    from r' i1 u1 r1 that show ?thesis by (metis list.set_intros(1,2))
  qed
  with t' t1(2) show ?case by (metis le_trans)
qed


lemma isActive_truthy: "isActive l = (\<not> truthy (deleted_at l))"
  by (simp add: isActive_def truthy_def split: option.splits)

lemma touches_snapshot:
  assumes "touches T (filter isActive t) r (uuid (t ! i))" and "distinct (map uuid t)" and "i < length t"
  shows "isActive (t ! i) \<and> r_uuid r = Some (uuid (t ! i)) \<and>
         (truthy (r_deleted_at r) \<or>
          (is_synced (t ! i) \<noteq> 0 \<and> laterThan (T (remoteStamp r)) (T (localStamp (t ! i)))))"
proof -
  from assms(1) obtain l0 where l0: "l0 \<in> set t" "isActive l0" "uuid l0 = uuid (t ! i)"
    and c: "truthy (r_deleted_at r) \<or> (is_synced l0 \<noteq> 0 \<and> laterThan (T (remoteStamp r)) (T (localStamp l0)))"
    and u: "r_uuid r = Some (uuid (t ! i))"
    by (auto simp: touches_def list_ex_iff)
  have "t ! i \<in> set t" using assms(3) by simp
  with l0 assms(2) have "l0 = t ! i" by (meson distinct_map inj_onD)
  with l0 c u show ?thesis by simp
qed

lemma pullStep_content:
  assumes "pullStep T e ls r db = Inr db'" and "getTable db e = Some t" and "getTable db' e = Some t'"
    and "i < length t" and "\<forall>l0\<in>set ls. uuid l0 = uuid (t ! i) \<longrightarrow> is_synced l0 = 0"
  shows "sameContent (t' ! i) (t ! i)"
proof -
  from pullStep_rows [OF assms(1,2)] assms(3,4)
  have "t' ! i = t ! i \<or>
              (touches T ls r (uuid (t ! i)) \<and>
               (if truthy (r_deleted_at r) then t' ! i = tombstoned r (t ! i)
                else overwrite e r (t ! i) = Some (t' ! i)))" by auto
  then show ?thesis
    using assms(5) by (auto simp: sameContent_def tombstoned_def touches_def list_ex_iff split: if_splits)
qed

lemma sameContent_trans: "sameContent a b \<Longrightarrow> sameContent b c \<Longrightarrow> sameContent a c"
  by (simp add: sameContent_def)

lemma pullLoop_content:
  "pullLoop T e ls rs db = Inr db' \<Longrightarrow> getTable db e = Some t \<Longrightarrow> getTable db' e = Some t' \<Longrightarrow>
   i < length t \<Longrightarrow> \<forall>l0\<in>set ls. uuid l0 = uuid (t ! i) \<longrightarrow> is_synced l0 = 0 \<Longrightarrow>
   sameContent (t' ! i) (t ! i)"
proof (induction rs arbitrary: db t)
  case Nil
  then show ?case by (simp add: sameContent_def)
next
  case (Cons r rs)
  from Cons.prems(1) obtain db1 where s: "pullStep T e ls r db = Inr db1"
    and l: "pullLoop T e ls rs db1 = Inr db'"
    by (auto split: sum.splits)
  from pullStep_uuid [OF s Cons.prems(2)]
  obtain t1 where t1: "getTable db1 e = Some t1" "length t \<le> length t1"
    and u1: "\<forall>i<length t. uuid (t1 ! i) = uuid (t ! i)" by blast
  have c1: "sameContent (t1 ! i) (t ! i)"
    using pullStep_content [OF s Cons.prems(2) t1(1) Cons.prems(4,5)] .
  have i1: "i < length t1" using Cons.prems(4) t1(2) by simp
  have "\<forall>l0\<in>set ls. uuid l0 = uuid (t1 ! i) \<longrightarrow> is_synced l0 = 0"
    using Cons.prems(4,5) u1 by simp
  from Cons.IH [OF l t1(1) Cons.prems(3) i1 this] c1 show ?case
    by (rule sameContent_trans)
qed


subsection \<open>Tombstones are applied\<close>

lemma overwrite_flags:
  "overwrite e r l = Some l' \<Longrightarrow>
   is_synced l' = 1 \<and> operation_type l' = operation_type l \<and> deleted_at l' = deleted_at l"
  by (auto simp: overwrite_def split: option.splits if_splits)

lemma pullStep_tombstone_applied:
  assumes "pullStep T e ls r db = Inr db'" and "getTable db e = Some t" and "getTable db' e = Some t'"
    and "i < length t" and "truthy (r_deleted_at r)" and "r_uuid r = Some (uuid (t ! i))"
    and "list_ex (\<lambda>l0. uuid l0 = uuid (t ! i)) ls" and "\<forall>l\<in>set ls. isActive l"
  shows "t' ! i = tombstoned r (t ! i)"
proof -
  have "find (\<lambda>l. Some (uuid l) = r_uuid r) ls \<noteq> None"
    using assms(6,7) by (auto simp: find_None_iff list_ex_iff)
  then obtain l0 where f: "find (\<lambda>l. Some (uuid l) = r_uuid r) ls = Some l0" by blast
  note l0 = find_uuid_Some [OF f]
  have "\<not> truthy (deleted_at l0)" using l0 assms(8) by (simp add: isActive_truthy)
  with f assms(1,5) have "applyTombstone e r db = Inr db'" by (simp add: pullStep_def)
  from sqlUpdateFlags_Inr [OF this [unfolded applyTombstone_def] assms(2)]
  have "t' = map (\<lambda>l. if Some (uuid l) = r_uuid r
                 then l\<lparr>deleted_at := r_deleted_at r, is_synced := 1, operation_type := None\<rparr> else l) t"
    using assms(3) getTable_setTable [OF assms(2)] by simp
  then show ?thesis using assms(4,6) by (simp add: tombstoned_def)
qed

lemma pullStep_flags:
  assumes "pullStep T e ls r db = Inr db'" and "getTable db e = Some t" and "getTable db' e = Some t'"
    and "i < length t" and "is_synced (t ! i) = 1" and "operation_type (t ! i) = None"
  shows "is_synced (t' ! i) = 1 \<and> operation_type (t' ! i) = None \<and>
         (deleted_at (t' ! i) = deleted_at (t ! i) \<or>
          (r_uuid r = Some (uuid (t ! i)) \<and> truthy (r_deleted_at r) \<and>
           deleted_at (t' ! i) = r_deleted_at r))"
proof -
  from pullStep_rows [OF assms(1,2)] assms(3,4)
  have "t' ! i = t ! i \<or>
              (touches T ls r (uuid (t ! i)) \<and>
               (if truthy (r_deleted_at r) then t' ! i = tombstoned r (t ! i)
                else overwrite e r (t ! i) = Some (t' ! i)))" by auto
  then show ?thesis
    using assms(5,6)
    by (auto simp: tombstoned_def touches_def dest: overwrite_flags split: if_splits)
qed

lemma pullLoop_flags:
  "pullLoop T e ls rs db = Inr db' \<Longrightarrow> getTable db e = Some t \<Longrightarrow> getTable db' e = Some t' \<Longrightarrow>
   i < length t \<Longrightarrow> is_synced (t ! i) = 1 \<Longrightarrow> operation_type (t ! i) = None \<Longrightarrow>
   is_synced (t' ! i) = 1 \<and> operation_type (t' ! i) = None \<and>
   (deleted_at (t' ! i) = deleted_at (t ! i) \<or>
    (\<exists>r\<in>set rs. r_uuid r = Some (uuid (t ! i)) \<and> truthy (r_deleted_at r) \<and>
        deleted_at (t' ! i) = r_deleted_at r))"
proof (induction rs arbitrary: db t)
  case Nil
  then show ?case by simp
next
  case (Cons r rs)
  from Cons.prems(1) obtain db1 where s: "pullStep T e ls r db = Inr db1"
    and l: "pullLoop T e ls rs db1 = Inr db'"
    by (auto split: sum.splits)
  from pullStep_uuid [OF s Cons.prems(2)]
  obtain t1 where t1: "getTable db1 e = Some t1" "length t \<le> length t1"
    and u1: "\<forall>i<length t. uuid (t1 ! i) = uuid (t ! i)" by blast
  have i1: "i < length t1" using Cons.prems(4) t1(2) by simp
  have u: "uuid (t1 ! i) = uuid (t ! i)" using u1 Cons.prems(4) by simp
  note f1 = pullStep_flags [OF s Cons.prems(2) t1(1) Cons.prems(4,5,6)]
  from f1 have a: "is_synced (t1 ! i) = 1" and b: "operation_type (t1 ! i) = None" by simp_all
  note f' = Cons.IH [OF l t1(1) Cons.prems(3) i1 a b]
  from f1 f' u show ?case by auto
qed

lemma pullLoop_tombstone:
  "pullLoop T e ls rs db = Inr db' \<Longrightarrow> getTable db e = Some t \<Longrightarrow> getTable db' e = Some t' \<Longrightarrow>
   i < length t \<Longrightarrow> list_ex (\<lambda>l0. uuid l0 = uuid (t ! i)) ls \<Longrightarrow> \<forall>l\<in>set ls. isActive l \<Longrightarrow>
   \<exists>r\<in>set rs. r_uuid r = Some (uuid (t ! i)) \<and> truthy (r_deleted_at r) \<Longrightarrow>
   is_synced (t' ! i) = 1 \<and> operation_type (t' ! i) = None \<and>
   (\<exists>r\<in>set rs. r_uuid r = Some (uuid (t ! i)) \<and> truthy (r_deleted_at r) \<and>
       deleted_at (t' ! i) = r_deleted_at r)"
proof (induction rs arbitrary: db t)
  case Nil
  then show ?case by simp
next
  case (Cons r rs)
  from Cons.prems(1) obtain db1 where s: "pullStep T e ls r db = Inr db1"
    and l: "pullLoop T e ls rs db1 = Inr db'"
    by (auto split: sum.splits)
  from pullStep_uuid [OF s Cons.prems(2)]
  obtain t1 where t1: "getTable db1 e = Some t1" "length t \<le> length t1"
    and u1: "\<forall>i<length t. uuid (t1 ! i) = uuid (t ! i)" by blast
  have i1: "i < length t1" using Cons.prems(4) t1(2) by simp
  have u: "uuid (t1 ! i) = uuid (t ! i)" using u1 Cons.prems(4) by simp
  show ?case
  proof (cases "r_uuid r = Some (uuid (t ! i)) \<and> truthy (r_deleted_at r)")
    case True
    have x: "t1 ! i = tombstoned r (t ! i)"
      using pullStep_tombstone_applied [OF s Cons.prems(2) t1(1) Cons.prems(4) _ _ Cons.prems(5,6)] True
      by simp
    then have a: "is_synced (t1 ! i) = 1" and b: "operation_type (t1 ! i) = None"
      and d: "deleted_at (t1 ! i) = r_deleted_at r"
      by (simp_all add: tombstoned_def)
    from pullLoop_flags [OF l t1(1) Cons.prems(3) i1 a b] d u True show ?thesis by auto
  next
    case False
    with Cons.prems(7) have ex: "\<exists>r\<in>set rs. r_uuid r = Some (uuid (t1 ! i)) \<and> truthy (r_deleted_at r)"
      using u by auto
    have le: "list_ex (\<lambda>l0. uuid l0 = uuid (t1 ! i)) ls" using Cons.prems(5) u by simp
    from Cons.IH [OF l t1(1) Cons.prems(3) i1 le Cons.prems(6) ex] u show ?thesis by auto
  qed
qed

lemma tombstoned_eq:
  assumes "sameContent a b" and "deleted_at a = r_deleted_at r" and "is_synced a = 1"
    and "operation_type a = None"
  shows "a = tombstoned r b"
  using assms by (cases a, cases b) (simp add: sameContent_def tombstoned_def)

text \<open>With distinct uuids, the list read before the loop holds the active row itself.\<close>

lemma snapshot_has:
  "i < length t \<Longrightarrow> isActive (t ! i) \<Longrightarrow> list_ex (\<lambda>l0. uuid l0 = uuid (t ! i)) (filter isActive t)"
  by (auto simp: list_ex_iff intro!: exI [of _ "t ! i"])

lemma snapshot_unsynced:
  assumes "distinct (map uuid t)" and "i < length t" and "is_synced (t ! i) = 0"
  shows "\<forall>l0\<in>set (filter isActive t). uuid l0 = uuid (t ! i) \<longrightarrow> is_synced l0 = 0"
proof (intro ballI impI)
  fix l0 assume "l0 \<in> set (filter isActive t)" "uuid l0 = uuid (t ! i)"
  moreover have "t ! i \<in> set t" using assms(2) by simp
  ultimately have "l0 = t ! i" using assms(1) by (auto dest: inj_onD simp: distinct_map)
  with assms(3) show "is_synced l0 = 0" by simp
qed

text \<open>
  C1, as far as the code goes. Take a table with distinct uuids and a run of \<open>pullEntity\<close>
  that completes. A row that was there before the run is changed only if it was active and
  the remote list holds a record with its uuid that is a tombstone, or that is strictly
  later than the row (by \<^verbatim>\<open>updated_at || created_at\<close> on both sides) while the row has
  \<open>is_synced\<close> set. So without a tombstone the remote version is written over a row only
  under the guard, and a row with \<open>is_synced = 0\<close> keeps its business fields and timestamps
  whatever the list holds. A tombstone is applied without the guard: when the list holds a
  tombstone with the uuid of an active row, synced or not, the row ends with \<open>is_synced = 1\<close>,
  no \<open>operation_type\<close> and the \<open>deleted_at\<close> of such a tombstone.
\<close>

theorem pull_conflict_guard:
  assumes "pullEntity T e rs db = Inr db'" and "getTable db e = Some t"
    and "distinct (map uuid t)" and "i < length t"
  shows "case getTable db' e of None \<Rightarrow> False | Some t' \<Rightarrow>
           i < length t' \<and>
           (t' ! i = t ! i \<or>
            (isActive (t ! i) \<and>
             (\<exists>r\<in>set rs. r_uuid r = Some (uuid (t ! i)) \<and>
                (truthy (r_deleted_at r) \<or>
                 (is_synced (t ! i) \<noteq> 0 \<and> laterThan (T (remoteStamp r)) (T (localStamp (t ! i)))))))) \<and>
           (is_synced (t ! i) = 0 \<longrightarrow> sameContent (t' ! i) (t ! i)) \<and>
           (isActive (t ! i) \<and> (\<exists>r\<in>set rs. r_uuid r = Some (uuid (t ! i)) \<and> truthy (r_deleted_at r)) \<longrightarrow>
              is_synced (t' ! i) = 1 \<and> operation_type (t' ! i) = None \<and>
              (\<exists>r\<in>set rs. r_uuid r = Some (uuid (t ! i)) \<and> truthy (r_deleted_at r) \<and>
                  deleted_at (t' ! i) = r_deleted_at r))"
proof -
  have l: "pullLoop T e (filter isActive t) rs db = Inr db'"
    using assms(1,2) by (simp add: pullEntity_def)
  from pullLoop_rows [OF l assms(2)] obtain t' where t': "getTable db' e = Some t'" "length t \<le> length t'"
    and r: "t' ! i = t ! i \<or> (\<exists>r\<in>set rs. touches T (filter isActive t) r (uuid (t ! i)))"
    using assms(4) by blast
  have a: "t' ! i = t ! i \<or>
            (isActive (t ! i) \<and>
             (\<exists>r\<in>set rs. r_uuid r = Some (uuid (t ! i)) \<and>
                (truthy (r_deleted_at r) \<or>
                 (is_synced (t ! i) \<noteq> 0 \<and> laterThan (T (remoteStamp r)) (T (localStamp (t ! i)))))))"
    using r touches_snapshot [OF _ assms(3,4)] by blast
  have b: "sameContent (t' ! i) (t ! i)" if "is_synced (t ! i) = 0"
    using pullLoop_content [OF l assms(2) t'(1) assms(4) snapshot_unsynced [OF assms(3,4) that]] .
  have c: "is_synced (t' ! i) = 1 \<and> operation_type (t' ! i) = None \<and>
              (\<exists>r\<in>set rs. r_uuid r = Some (uuid (t ! i)) \<and> truthy (r_deleted_at r) \<and>
                  deleted_at (t' ! i) = r_deleted_at r)"
    if "isActive (t ! i)" and "\<exists>r\<in>set rs. r_uuid r = Some (uuid (t ! i)) \<and> truthy (r_deleted_at r)"
    using pullLoop_tombstone [OF l assms(2) t'(1) assms(4) snapshot_has [OF assms(4) that(1)] _ that(2)]
    by simp
  from t' a b c assms(4) show ?thesis by simp
qed

text \<open>
  C8, as far as the code goes. Take a table with distinct uuids, a row with \<open>is_synced = 0\<close>
  and a run of \<open>pullEntity\<close> that completes; the queue is as before. When the row is active
  and the remote list holds a tombstone with its uuid, the row ends as that row with the
  \<open>deleted_at\<close> of such a tombstone, \<open>is_synced = 1\<close> and no \<open>operation_type\<close>, its other
  columns unchanged. In every other case (the row is soft-deleted locally, or no tombstone
  carries its uuid) the row is the same row after the run, whatever else the list holds,
  records with its uuid included. This covers every unpushed local deletion, and says what
  happens to an unpushed local insert.
\<close>

theorem pull_leaves_unpushed_rows:
  assumes "pullEntity T e rs db = Inr db'" and "getTable db e = Some t"
    and "distinct (map uuid t)" and "i < length t" and "is_synced (t ! i) = 0"
  shows "(case getTable db' e of None \<Rightarrow> False | Some t' \<Rightarrow>
            i < length t' \<and>
            (if isActive (t ! i) \<and> (\<exists>r\<in>set rs. r_uuid r = Some (uuid (t ! i)) \<and> truthy (r_deleted_at r))
             then \<exists>r\<in>set rs. r_uuid r = Some (uuid (t ! i)) \<and> truthy (r_deleted_at r) \<and>
                     t' ! i = tombstoned r (t ! i)
             else t' ! i = t ! i)) \<and>
         sync_queue db' = sync_queue db"
proof -
  have l: "pullLoop T e (filter isActive t) rs db = Inr db'"
    using assms(1,2) by (simp add: pullEntity_def)
  from pullLoop_rows [OF l assms(2)] obtain t' where t': "getTable db' e = Some t'" "length t \<le> length t'"
    and r: "t' ! i = t ! i \<or> (\<exists>r\<in>set rs. touches T (filter isActive t) r (uuid (t ! i)))"
    using assms(4) by blast
  show ?thesis
  proof (cases "isActive (t ! i) \<and> (\<exists>r\<in>set rs. r_uuid r = Some (uuid (t ! i)) \<and> truthy (r_deleted_at r))")
    case True
    have c: "sameContent (t' ! i) (t ! i)"
      using pullLoop_content [OF l assms(2) t'(1) assms(4) snapshot_unsynced [OF assms(3,4,5)]] .
    from True pullLoop_tombstone [OF l assms(2) t'(1) assms(4) snapshot_has [OF assms(4)]]
    obtain r where r: "r \<in> set rs" "r_uuid r = Some (uuid (t ! i))" "truthy (r_deleted_at r)"
      "deleted_at (t' ! i) = r_deleted_at r" and f: "is_synced (t' ! i) = 1" "operation_type (t' ! i) = None"
      by auto
    from tombstoned_eq [OF c r(4) f] r have
      "\<exists>r\<in>set rs. r_uuid r = Some (uuid (t ! i)) \<and> truthy (r_deleted_at r) \<and> t' ! i = tombstoned r (t ! i)"
      by blast
    with True t' assms(4) pullEntity_queue [OF assms(1)] show ?thesis by simp
  next
    case False
    have "t' ! i = t ! i"
      using r touches_snapshot [OF _ assms(3,4)] assms(5) False by blast
    with False t' assms(4) pullEntity_queue [OF assms(1)] show ?thesis by auto
  qed
qed

lemmas pull_defs = pullEntity_def pullStep_def insertRemoteItem_def remoteRow_def advance_def
  updateLocalFromRemote_def applyTombstone_def overwrite_def remoteStamp_def localStamp_def
  orElse_def truthy_def laterThan_def isActive_def nextId_def notNullOk_def sqlUpdate_def
  sqlUpdateFlags_def getTable_def setTable_def uniqueOk_def uniqueKey_def foreignKeysOk_def
  references_def

theorem pull_conflict_guard_witness:
  "pullEntity demoTime ''offices'' [remoteRenamed] (demoDb\<lparr>offices := [office1Edited, office2]\<rparr>) =
     Inr (demoDb\<lparr>offices := [office1Edited, office2]\<rparr>) \<and>
   is_synced office1Edited = 0 \<and>
   pullEntity demoTime ''offices'' [remoteRenamed] demoDb =
     Inr (demoDb\<lparr>offices := [office1\<lparr>name := ''North HQ'', updated_at := day3\<rparr>, office2]\<rparr>) \<and>
   is_synced office1 = 1 \<and>
   laterThan (demoTime (remoteStamp remoteRenamed)) (demoTime (localStamp office1))"
proof -
  have a: "pullEntity demoTime ''offices'' [remoteRenamed] (demoDb\<lparr>offices := [office1Edited, office2]\<rparr>) =
     Inr (demoDb\<lparr>offices := [office1Edited, office2]\<rparr>)"
    by (simp add: demo_defs pull_defs remoteRenamed_def office1Edited_def)
  have b: "pullEntity demoTime ''offices'' [remoteRenamed] demoDb =
     Inr (demoDb\<lparr>offices := [office1\<lparr>name := ''North HQ'', updated_at := day3\<rparr>, office2]\<rparr>)"
    by (simp add: demo_defs pull_defs remoteRenamed_def office1Edited_def)
  have t: "getTable demoDb ''offices'' = Some [office1, office2]"
    by (simp add: getTable_def demoDb_def)
  have d: "distinct (map uuid [office1, office2])"
    by (simp add: office1_def office2_def)
  from pull_conflict_guard [OF b t d, of 0] b show ?thesis
    using a by (simp add: demo_defs pull_defs remoteRenamed_def office1Edited_def)
qed

text \<open>
  The tombstone statement has no guard. Office \<open>u-1\<close> carries a local edit that is still
  queued (\<open>is_synced = 0\<close>); the remote record with its uuid is deleted; the pull marks the
  row deleted and synced and clears its \<open>operation_type\<close>.
\<close>

theorem pull_tombstone_over_edit_counterexample:
  "is_synced office1Edited = 0 \<and> isActive office1Edited \<and>
   pullEntity demoTime ''offices'' [remoteDeleted] (demoDb\<lparr>offices := [office1Edited, office2]\<rparr>) =
     Inr (demoDb\<lparr>offices :=
            [office1Edited\<lparr>deleted_at := Some day3, is_synced := 1, operation_type := None\<rparr>, office2]\<rparr>)"
  by (simp add: demo_defs pull_defs remoteRenamed_def remoteDeleted_def office1Edited_def)

theorem pull_leaves_unpushed_rows_witness:
  "getTable demoDb ''offices'' = Some [office1, office2] \<and> is_synced office2 = 0 \<and>
   operation_type office2 = Some ''INSERT'' \<and>
   pullEntity demoTime ''offices'' [remoteRenamed, remoteDeleted2\<lparr>r_deleted_at := None\<rparr>] demoDb =
     Inr (demoDb\<lparr>offices := [office1\<lparr>name := ''North HQ'', updated_at := day3\<rparr>, office2]\<rparr>)"
proof -
  have b: "pullEntity demoTime ''offices'' [remoteRenamed, remoteDeleted2\<lparr>r_deleted_at := None\<rparr>] demoDb =
     Inr (demoDb\<lparr>offices := [office1\<lparr>name := ''North HQ'', updated_at := day3\<rparr>, office2]\<rparr>)"
    by (simp add: demo_defs pull_defs remoteRenamed_def remoteDeleted2_def)
  have t: "getTable demoDb ''offices'' = Some [office1, office2]"
    by (simp add: getTable_def demoDb_def)
  have d: "distinct (map uuid [office1, office2])"
    by (simp add: office1_def office2_def)
  have s: "is_synced ([office1, office2] ! 1) = 0"
    by (simp add: office2_def)
  from pull_leaves_unpushed_rows [OF b t d _ s] b t show ?thesis
    by (simp add: office2_def)
qed

text \<open>
  Office \<open>u-2\<close> is an unpushed local insert; a remote tombstone with its uuid changes the row.
\<close>

theorem pull_tombstone_over_insert_counterexample:
  "is_synced office2 = 0 \<and> operation_type office2 = Some ''INSERT'' \<and>
   pullEntity demoTime ''offices'' [remoteDeleted2] demoDb =
     Inr (demoDb\<lparr>offices :=
            [office1, office2\<lparr>deleted_at := Some day3, is_synced := 1, operation_type := None\<rparr>]\<rparr>)"
  by (simp add: demo_defs pull_defs remoteDeleted2_def)

theorem updateLocalFromRemote_frame_witness:
  "getTable demoDb ''offices'' = Some [office1, office2] \<and>
   updateLocalFromRemote ''offices'' remoteRenamed demoDb =
     Inr (demoDb\<lparr>offices := [office1\<lparr>name := ''North HQ'', updated_at := day3\<rparr>, office2]\<rparr>)"
proof -
  have b: "updateLocalFromRemote ''offices'' remoteRenamed demoDb =
     Inr (demoDb\<lparr>offices := [office1\<lparr>name := ''North HQ'', updated_at := day3\<rparr>, office2]\<rparr>)"
    by (simp add: demo_defs pull_defs remoteRenamed_def)
  have t: "getTable demoDb ''offices'' = Some [office1, office2]"
    by (simp add: getTable_def demoDb_def)
  from updateLocalFromRemote_frame [OF b t] b t show ?thesis by simp
qed

section \<open>Running the pull twice\<close>






















end
